theory Spec2Isabelle
  imports Main "HOL-Library.AList" "HOL-Library.Char_ord" "HOL-Library.List_Lexorder"
begin

section \<open>Python values\<close>

text \<open>
  The values that reach the two modules are decoded JSON: \<open>None\<close>, booleans, integers,
  strings, lists and dicts. A dict is an association list read with \<open>map_of\<close>; a string
  is a list of 8-bit characters, so code points above 255 are outside the model, and so are
  floating-point numbers.
\<close>

datatype json =
    JNull
  | JBool bool
  | JInt int
  | JStr string
  | JArr "json list"
  | JObj "(string \<times> json) list"

datatype error =
    ValueError string
  | TypeError string
  | AttributeError
  | OverflowError
  | IntegrityError
  | ProgrammingError

text \<open>Python's truth test, the \<open>not item\<close> of both modules.\<close>

fun truthy :: "json \<Rightarrow> bool" where
  "truthy JNull = False"
| "truthy (JBool b) = b"
| "truthy (JInt i) = (i \<noteq> 0)"
| "truthy (JStr s) = (s \<noteq> [])"
| "truthy (JArr xs) = (xs \<noteq> [])"
| "truthy (JObj kvs) = (kvs \<noteq> [])"


fun is_list :: "json \<Rightarrow> bool" where
  "is_list (JArr xs) = True"
| "is_list v = False"

text \<open>Decimal text of a number, as \<open>str(index)\<close> and the f-strings produce it.\<close>

definition digit_char :: "nat \<Rightarrow> char" where
  "digit_char d = ''0123456789'' ! d"

function string_of_nat :: "nat \<Rightarrow> string" where
  "string_of_nat n =
     (if n < 10 then [digit_char n]
      else string_of_nat (n div 10) @ [digit_char (n mod 10)])"
  by pat_completeness auto
termination
  by (relation "measure id") auto

declare string_of_nat.simps [simp del]

definition string_of_int :: "int \<Rightarrow> string" where
  "string_of_int i = (if i < 0 then CHR ''-'' # string_of_nat (nat (- i)) else string_of_nat (nat i))"

text \<open>
  \<open>repr(x)\<close>. A string is quoted with \<open>'\<close>, or with \<open>"\<close> when it holds a \<open>'\<close> and
  no \<open>"\<close>; the quote and the backslash are escaped, tab, newline and carriage return
  are written as letters, and every other code point that is not printable (below 32,
  127 to 160, and 173) as \<open>\xhh\<close>.
\<close>

definition hex_char :: "nat \<Rightarrow> char" where
  "hex_char d = ''0123456789abcdef'' ! d"

definition repr_char :: "char \<Rightarrow> char \<Rightarrow> string" where
  "repr_char q c =
     (let n = (of_char c :: nat) in
      if c = q \<or> c = CHR 0x5C then [CHR 0x5C, c]
      else if c = CHR 0x09 then [CHR 0x5C, CHR ''t'']
      else if c = CHR 0x0A then [CHR 0x5C, CHR ''n'']
      else if c = CHR 0x0D then [CHR 0x5C, CHR ''r'']
      else if n < 32 \<or> n = 127 \<or> (128 \<le> n \<and> n \<le> 160) \<or> n = 173
      then [CHR 0x5C, CHR ''x'', hex_char (n div 16), hex_char (n mod 16)]
      else [c])"

definition repr_str :: "string \<Rightarrow> string" where
  "repr_str s =
     (let q = (if CHR 0x27 \<in> set s \<and> CHR 0x22 \<notin> set s then CHR 0x22 else CHR 0x27)
      in q # concat (map (repr_char q) s) @ [q])"

fun py_repr :: "json \<Rightarrow> string"
  and repr_elems :: "json list \<Rightarrow> string"
  and repr_items :: "(string \<times> json) list \<Rightarrow> string" where
  "py_repr JNull = ''None''"
| "py_repr (JBool b) = (if b then ''True'' else ''False'')"
| "py_repr (JInt i) = string_of_int i"
| "py_repr (JStr s) = repr_str s"
| "py_repr (JArr xs) = ''['' @ repr_elems xs @ '']''"
| "py_repr (JObj kvs) = ''{'' @ repr_items kvs @ ''}''"
| "repr_elems [] = []"
| "repr_elems [x] = py_repr x"
| "repr_elems (x # y # xs) = py_repr x @ '', '' @ repr_elems (y # xs)"
| "repr_items [] = []"
| "repr_items [(k, v)] = repr_str k @ '': '' @ py_repr v"
| "repr_items ((k, v) # kv # kvs) = repr_str k @ '': '' @ py_repr v @ '', '' @ repr_items (kv # kvs)"

text \<open>\<open>str(x)\<close>: a string is itself, every other value is its \<open>repr\<close>.\<close>

fun py_str :: "json \<Rightarrow> string" where
  "py_str (JStr s) = s"
| "py_str v = py_repr v"

text \<open>\<open>item.get(key, default)\<close>: on a dict, and on any value (only a dict has the method).\<close>

definition dict_get :: "(string \<times> json) list \<Rightarrow> string \<Rightarrow> json \<Rightarrow> json" where
  "dict_get kvs k d = (case map_of kvs k of None \<Rightarrow> d | Some v \<Rightarrow> v)"

fun py_get :: "json \<Rightarrow> string \<Rightarrow> json \<Rightarrow> error + json" where
  "py_get (JObj kvs) k d = Inr (dict_get kvs k d)"
| "py_get v k d = Inl AttributeError"

text \<open>
  \<open>str.strip()\<close>: drops leading and trailing whitespace, which for code points below 256
  is 9-13, 28-32, 133 and 160.
\<close>

definition py_isspace :: "char \<Rightarrow> bool" where
  "py_isspace c = ((of_char c :: nat) \<in> set [9, 10, 11, 12, 13, 28, 29, 30, 31, 32, 133, 160])"

definition strip :: "string \<Rightarrow> string" where
  "strip s = rev (dropWhile py_isspace (rev (dropWhile py_isspace s)))"

section \<open>The storage engine\<close>

text \<open>
  A bound parameter reaches SQLite as NULL, INTEGER or TEXT; a list or a dict cannot be
  bound, and an integer outside 64 bits overflows. A \<open>TEXT NOT NULL\<close> column refuses NULL
  and stores an integer as its decimal text.
\<close>

datatype sqlval = SqlNull | SqlInteger int | SqlText string

fun bind_param :: "json \<Rightarrow> error + sqlval" where
  "bind_param JNull = Inr SqlNull"
| "bind_param (JBool b) = Inr (SqlInteger (if b then 1 else 0))"
| "bind_param (JInt i) =
     (if - (2 ^ 63) \<le> i \<and> i < 2 ^ 63 then Inr (SqlInteger i) else Inl OverflowError)"
| "bind_param (JStr s) = Inr (SqlText s)"
| "bind_param (JArr xs) = Inl ProgrammingError"
| "bind_param (JObj kvs) = Inl ProgrammingError"

fun text_not_null :: "sqlval \<Rightarrow> error + string" where
  "text_not_null SqlNull = Inl IntegrityError"
| "text_not_null (SqlInteger i) = Inr (string_of_int i)"
| "text_not_null (SqlText s) = Inr s"

text \<open>
  What the connections of a process do, in the order they do it; both modules' states
  extend this record.
\<close>

datatype conn_event = Connect | Commit | Rollback | Close

record conn_log =
  events :: "conn_event list"

record slot_record =
  subject :: string
  current :: string
  target :: string

section \<open>Database.py: one row per slot, behind HTTP handlers\<close>

text \<open>
  The names \<open>_get_connection\<close>, \<open>init_db\<close>, \<open>_load_subjects\<close> and \<open>_save_subjects\<close> of
  Database.py carry the prefix \<open>Database_\<close>; the other names of the two modules are unique.
  Both tables are created by \<open>CREATE TABLE IF NOT EXISTS\<close> before every operation, so a
  missing table and an empty one are the same state.
\<close>

definition SLOT_COUNT :: nat where
  "SLOT_COUNT = 5"

record tables =
  subject_slots :: "(int \<times> slot_record) list"
  goals :: "(int \<times> string) list"

record app_state = conn_log +
  db :: tables

definition empty_app :: app_state where
  "empty_app = \<lparr>events = [], db = \<lparr>subject_slots = [], goals = []\<rparr>\<rparr>"

text \<open>
  \<open>with _get_connection() as connection:\<close> on a bare \<open>sqlite3.Connection\<close>: the block's
  statements are committed when it ends normally and rolled back when it raises; the
  connection is not closed.
\<close>

definition Database_get_connection ::
  "(tables \<Rightarrow> error + tables \<times> 'a) \<Rightarrow> app_state \<Rightarrow> (error + 'a) \<times> app_state" where
  "Database_get_connection body st =
     (case body (db st) of
        Inr (t, r) \<Rightarrow> (Inr r, st\<lparr>db := t, events := events st @ [Connect, Commit]\<rparr>)
      | Inl e \<Rightarrow> (Inl e, st\<lparr>events := events st @ [Connect, Rollback]\<rparr>))"

definition Database_init_db :: "app_state \<Rightarrow> app_state" where
  "Database_init_db st = snd (Database_get_connection (\<lambda>t. Inr (t, ())) st)"

definition save_goal :: "json \<Rightarrow> app_state \<Rightarrow> (error + unit) \<times> app_state" where
  "save_goal goal st =
     Database_get_connection
       (\<lambda>t. case bind_param goal of
               Inl e \<Rightarrow> Inl e
             | Inr v \<Rightarrow>
                 (case text_not_null v of
                    Inl e \<Rightarrow> Inl e
                  | Inr g \<Rightarrow> Inr (t\<lparr>goals := AList.update 1 g (goals t)\<rparr>, ())))
       (Database_init_db st)"

definition load_goal :: "app_state \<Rightarrow> (error + string) \<times> app_state" where
  "load_goal st =
     (case Database_get_connection (\<lambda>t. Inr (t, map_of (goals t) 1)) (Database_init_db st) of
        (Inl e, st') \<Rightarrow> (Inl e, st')
      | (Inr row, st') \<Rightarrow> (Inr (case row of None \<Rightarrow> [] | Some g \<Rightarrow> g), st'))"

text \<open>
  \<open>_load_subjects\<close>: five holes, then every row whose slot is in range overwrites its hole,
  in the order of \<open>ORDER BY slot\<close>.
\<close>

fun fill_slots :: "(int \<times> slot_record) list \<Rightarrow> slot_record option list \<Rightarrow> slot_record option list" where
  "fill_slots [] subjects = subjects"
| "fill_slots ((slot, r) # rows) subjects =
     fill_slots rows
       (if 0 \<le> slot \<and> slot < int SLOT_COUNT then subjects[nat slot := Some r] else subjects)"

definition Database_load_subjects :: "app_state \<Rightarrow> (error + slot_record option list) \<times> app_state" where
  "Database_load_subjects st =
     (case Database_get_connection (\<lambda>t. Inr (t, sort_key fst (subject_slots t)))
             (Database_init_db st) of
        (Inl e, st') \<Rightarrow> (Inl e, st')
      | (Inr rows, st') \<Rightarrow> (Inr (fill_slots rows (replicate SLOT_COUNT None)), st'))"

text \<open>
  The three values of one INSERT: \<open>str(item.get(name, ""))\<close> for each field, nothing
  trimmed.
\<close>

definition row_values :: "json \<Rightarrow> error + slot_record" where
  "row_values item =
     (case py_get item ''subject'' (JStr []) of
        Inl e \<Rightarrow> Inl e
      | Inr s \<Rightarrow>
          (case py_get item ''current'' (JStr []) of
             Inl e \<Rightarrow> Inl e
           | Inr c \<Rightarrow>
               (case py_get item ''target'' (JStr []) of
                  Inl e \<Rightarrow> Inl e
                | Inr t \<Rightarrow>
                    Inr \<lparr>subject = py_str s, current = py_str c, target = py_str t\<rparr>)))"

text \<open>An INSERT into a table whose key is its primary key.\<close>

definition insert_row :: "'k \<Rightarrow> 'v \<Rightarrow> ('k \<times> 'v) list \<Rightarrow> error + ('k \<times> 'v) list" where
  "insert_row k v rows = (if k \<in> set (map fst rows) then Inl IntegrityError else Inr (rows @ [(k, v)]))"

fun insert_slots ::
  "(nat \<times> json) list \<Rightarrow> (int \<times> slot_record) list \<Rightarrow> error + (int \<times> slot_record) list" where
  "insert_slots [] rows = Inr rows"
| "insert_slots ((slot, item) # rest) rows =
     (if \<not> truthy item then insert_slots rest rows
      else (case row_values item of
              Inl e \<Rightarrow> Inl e
            | Inr r \<Rightarrow>
                (case insert_row (int slot) r rows of
                   Inl e \<Rightarrow> Inl e
                 | Inr rows' \<Rightarrow> insert_slots rest rows')))"

text \<open>
  \<open>_save_subjects\<close>, on the list its caller hands it: the length check comes before the
  connection is opened; DELETE and the INSERTs share one transaction.
\<close>

definition Database_save_subjects ::
  "json list \<Rightarrow> app_state \<Rightarrow> (error + unit) \<times> app_state" where
  "Database_save_subjects subjects st =
     (let st1 = Database_init_db st in
      if length subjects \<noteq> SLOT_COUNT
      then (Inl (ValueError (''Expected '' @ string_of_nat SLOT_COUNT @ '' slots, got ''
                   @ string_of_nat (length subjects) @ ''.'')), st1)
      else Database_get_connection
             (\<lambda>t. case insert_slots (enumerate 0 subjects) (subject_slots (t\<lparr>subject_slots := []\<rparr>)) of
                     Inl e \<Rightarrow> Inl e
                   | Inr rows \<Rightarrow> Inr (t\<lparr>subject_slots := rows\<rparr>, ()))
             st1)"

subsection \<open>The handlers\<close>

text \<open>
  A handler gets the decoded request body (\<open>None\<close> when it is not JSON) and returns a
  response, or lets an exception through to the framework.
\<close>

record response =
  status_code :: nat
  json_body :: json

definition jsonify :: "json \<Rightarrow> response" where
  "jsonify v = \<lparr>status_code = 200, json_body = v\<rparr>"

definition bad_request :: "string \<Rightarrow> response" where
  "bad_request msg = \<lparr>status_code = 400, json_body = JObj [(''error'', JStr msg)]\<rparr>"

definition slot_json :: "slot_record option \<Rightarrow> json" where
  "slot_json x =
     (case x of
        None \<Rightarrow> JNull
      | Some r \<Rightarrow> JObj [(''subject'', JStr (subject r)), (''current'', JStr (current r)),
                         (''target'', JStr (target r))])"

definition get_subjects :: "app_state \<Rightarrow> (error + response) \<times> app_state" where
  "get_subjects st =
     (case Database_load_subjects st of
        (Inl e, st') \<Rightarrow> (Inl e, st')
      | (Inr subjects, st') \<Rightarrow> (Inr (jsonify (JArr (map slot_json subjects))), st'))"

definition set_subjects :: "json \<Rightarrow> app_state \<Rightarrow> (error + response) \<times> app_state" where
  "set_subjects payload st =
     (case payload of
        JArr subjects \<Rightarrow>
          (case Database_save_subjects subjects st of
             (Inl (ValueError msg), st') \<Rightarrow> (Inr (bad_request msg), st')
           | (Inl e, st') \<Rightarrow> (Inl e, st')
           | (Inr u, st') \<Rightarrow> (Inr (jsonify (JObj [(''status'', JStr ''ok'')])), st'))
      | _ \<Rightarrow> (Inr (bad_request ''Payload must be a list.''), st))"

definition get_goal :: "app_state \<Rightarrow> (error + response) \<times> app_state" where
  "get_goal st =
     (case load_goal st of
        (Inl e, st') \<Rightarrow> (Inl e, st')
      | (Inr g, st') \<Rightarrow> (Inr (jsonify (JObj [(''goal'', JStr g)])), st'))"

definition set_goal :: "json \<Rightarrow> app_state \<Rightarrow> (error + response) \<times> app_state" where
  "set_goal payload st =
     (case payload of
        JObj kvs \<Rightarrow>
          (case map_of kvs ''goal'' of
             None \<Rightarrow> (Inr (bad_request ''Payload must be a dict with 'goal' key.''), st)
           | Some goal \<Rightarrow>
               (case save_goal goal st of
                  (Inl e, st') \<Rightarrow> (Inl e, st')
                | (Inr u, st') \<Rightarrow> (Inr (jsonify (JObj [(''status'', JStr ''ok'')])), st')))
      | _ \<Rightarrow> (Inr (bad_request ''Payload must be a dict with 'goal' key.''), st))"

section \<open>database.py: named entries, and the snapshot as one JSON text\<close>

text \<open>
  The state is the table \<open>subject_entries\<close> (name to value, both text) and the module's
  global \<open>subjects\<close>, the in-memory copy of the snapshot. Every function runs on the
  default database path. \<open>json.dumps\<close> and \<open>json.loads\<close> are parameters: \<open>loads\<close> gives
  \<open>None\<close> where Python raises \<open>JSONDecodeError\<close>.
\<close>

definition SUBJECTS_KEY :: string where
  "SUBJECTS_KEY = ''subjects''"

record lib_state = conn_log +
  subject_entries :: "(string \<times> string) list"
  subjects :: "(string \<times> slot_record) list"

definition empty_lib :: lib_state where
  "empty_lib = \<lparr>events = [], subject_entries = [], subjects = []\<rparr>"

text \<open>
  \<open>_get_connection\<close>, the context manager: commit after the block, rollback and re-raise
  when it raises, close in either case.
\<close>

definition get_connection ::
  "((string \<times> string) list \<Rightarrow> error + (string \<times> string) list \<times> 'a) \<Rightarrow> lib_state
     \<Rightarrow> (error + 'a) \<times> lib_state" where
  "get_connection body st =
     (case body (subject_entries st) of
        Inr (t, r) \<Rightarrow> (Inr r, st\<lparr>subject_entries := t, events := events st @ [Connect, Commit, Close]\<rparr>)
      | Inl e \<Rightarrow> (Inl e, st\<lparr>events := events st @ [Connect, Rollback, Close]\<rparr>))"

definition init_db :: "lib_state \<Rightarrow> lib_state" where
  "init_db st = snd (get_connection (\<lambda>t. Inr (t, ())) st)"

text \<open>One \<open>INSERT ... ON CONFLICT(name) DO UPDATE\<close> of a name and a bound value.\<close>

definition upsert_entry :: "string \<Rightarrow> json \<Rightarrow> (string \<times> string) list \<Rightarrow> error + (string \<times> string) list" where
  "upsert_entry name val t =
     (case bind_param val of
        Inl e \<Rightarrow> Inl e
      | Inr v \<Rightarrow>
          (case text_not_null v of
             Inl e \<Rightarrow> Inl e
           | Inr txt \<Rightarrow> Inr (AList.update name txt t)))"

fun upsert_entries :: "(string \<times> json) list \<Rightarrow> (string \<times> string) list \<Rightarrow> error + (string \<times> string) list" where
  "upsert_entries [] t = Inr t"
| "upsert_entries ((name, val) # rest) t =
     (case upsert_entry name val t of
        Inl e \<Rightarrow> Inl e
      | Inr t' \<Rightarrow> upsert_entries rest t')"

definition save_subjects :: "json \<Rightarrow> lib_state \<Rightarrow> (error + unit) \<times> lib_state" where
  "save_subjects subject_data st =
     (case subject_data of
        JObj kvs \<Rightarrow>
          get_connection
            (\<lambda>t. case upsert_entries kvs t of Inl e \<Rightarrow> Inl e | Inr t' \<Rightarrow> Inr (t', ()))
            (init_db st)
      | _ \<Rightarrow> (Inl (TypeError ''subject_data must be a dict of {name: value}.''), st))"

definition save_subject :: "string \<Rightarrow> json \<Rightarrow> lib_state \<Rightarrow> (error + unit) \<times> lib_state" where
  "save_subject name val st =
     (if name = [] then (Inl (ValueError ''name must be a non-empty string.''), st)
      else get_connection
             (\<lambda>t. case upsert_entry name val t of Inl e \<Rightarrow> Inl e | Inr t' \<Rightarrow> Inr (t', ()))
             (init_db st))"

text \<open>
  \<open>load_subjects\<close>: the rows in the order of \<open>ORDER BY name\<close>, made into a dict by the
  comprehension, which keeps insertion order and lets a later duplicate key overwrite.
\<close>

definition dict_of_rows :: "('k \<times> 'v) list \<Rightarrow> ('k \<times> 'v) list" where
  "dict_of_rows rows = fold (\<lambda>(k, v). AList.update k v) rows []"

definition load_subjects :: "lib_state \<Rightarrow> (error + (string \<times> string) list) \<times> lib_state" where
  "load_subjects st = get_connection (\<lambda>t. Inr (t, dict_of_rows (sort_key fst t))) (init_db st)"

text \<open>
  The record both the normalisation and the reload build from a value they have checked
  to be a dict.
\<close>

definition stripped_record :: "(string \<times> json) list \<Rightarrow> slot_record" where
  "stripped_record kvs =
     \<lparr>subject = strip (py_str (dict_get kvs ''subject'' (JStr []))),
      current = strip (py_str (dict_get kvs ''current'' (JStr []))),
      target = strip (py_str (dict_get kvs ''target'' (JStr [])))\<rparr>"

fun normalize_items ::
  "(nat \<times> json) list \<Rightarrow> (string \<times> slot_record) list \<Rightarrow> error + (string \<times> slot_record) list" where
  "normalize_items [] normalized = Inr normalized"
| "normalize_items ((index, item) # rest) normalized =
     (if \<not> truthy item then normalize_items rest normalized
      else (case item of
              JObj kvs \<Rightarrow>
                normalize_items rest
                  (AList.update (string_of_nat index) (stripped_record kvs) normalized)
            | _ \<Rightarrow>
                Inl (TypeError (''subject_list['' @ string_of_nat index
                       @ ''] must be a dict or null.''))))"

definition normalize_subject_payload ::
  "json \<Rightarrow> nat \<Rightarrow> error + (string \<times> slot_record) list" where
  "normalize_subject_payload subject_list slot_count =
     (case subject_list of
        JArr items \<Rightarrow>
          if length items \<noteq> slot_count
          then Inl (ValueError (''Expected '' @ string_of_nat slot_count @ '' slots, got ''
                      @ string_of_nat (length items) @ ''.''))
          else normalize_items (enumerate 0 items) []
      | _ \<Rightarrow> Inl (TypeError ''subject_list must be a list.''))"

definition record_json :: "slot_record \<Rightarrow> json" where
  "record_json r =
     JObj [(''subject'', JStr (subject r)), (''current'', JStr (current r)),
           (''target'', JStr (target r))]"

definition mirror_json :: "(string \<times> slot_record) list \<Rightarrow> json" where
  "mirror_json m = JObj (map (\<lambda>(k, r). (k, record_json r)) m)"

definition save_subjects_snapshot ::
  "(json \<Rightarrow> string) \<Rightarrow> json \<Rightarrow> nat \<Rightarrow> lib_state \<Rightarrow> (error + unit) \<times> lib_state" where
  "save_subjects_snapshot dumps subject_list slot_count st =
     (case normalize_subject_payload subject_list slot_count of
        Inl e \<Rightarrow> (Inl e, st)
      | Inr normalized \<Rightarrow>
          save_subject SUBJECTS_KEY (JStr (dumps (mirror_json normalized)))
            (st\<lparr>subjects := normalized\<rparr>))"

text \<open>The loop of \<open>load_subjects_snapshot\<close> over the decoded dict's items.\<close>

fun recover_items ::
  "(string \<times> json) list \<Rightarrow> (string \<times> slot_record) list \<Rightarrow> (string \<times> slot_record) list" where
  "recover_items [] recovered = recovered"
| "recover_items ((key, JObj kvs) # rest) recovered =
     recover_items rest (AList.update key (stripped_record kvs) recovered)"
| "recover_items ((key, val) # rest) recovered = recover_items rest recovered"

definition load_subjects_snapshot ::
  "(string \<Rightarrow> json option) \<Rightarrow> nat \<Rightarrow> lib_state \<Rightarrow> (error + slot_record option list) \<times> lib_state" where
  "load_subjects_snapshot loads slot_count st =
     (case get_connection (\<lambda>t. Inr (t, map_of t SUBJECTS_KEY)) (init_db st) of
        (Inl e, st') \<Rightarrow> (Inl e, st')
      | (Inr row, st') \<Rightarrow>
          (let recovered =
                 (case row of
                    None \<Rightarrow> []
                  | Some txt \<Rightarrow>
                      if txt = [] then []
                      else (case (case loads txt of None \<Rightarrow> JObj [] | Some v \<Rightarrow> v) of
                              JObj kvs \<Rightarrow> recover_items kvs []
                            | _ \<Rightarrow> []))
           in (Inr (map (\<lambda>i. map_of recovered (string_of_nat i)) [0..<slot_count]),
               st'\<lparr>subjects := recovered\<rparr>)))"

section \<open>A JSON text codec\<close>

text \<open>
  What \<open>json.dumps\<close> prints for a value of the model with its default settings
  (separators \<open>", "\<close> and \<open>": "\<close>, everything outside printable ASCII escaped), and a
  recursive-descent decoder of JSON text whose numbers are integers and whose escapes stay
  below code point 256. The functions of database.py take their codec as parameters; this
  one is the codec of the checks on concrete inputs. The decoder's recursion is bounded by
  a budget of one step more than the text has characters.
\<close>

definition escape_char :: "char \<Rightarrow> string" where
  "escape_char c =
     (if c = CHR 0x22 then [CHR 0x5C, CHR 0x22]
      else if c = CHR 0x5C then [CHR 0x5C, CHR 0x5C]
      else if c = CHR 0x0A then [CHR 0x5C, CHR ''n'']
      else if c = CHR 0x0D then [CHR 0x5C, CHR ''r'']
      else if c = CHR 0x09 then [CHR 0x5C, CHR ''t'']
      else if c = CHR 0x08 then [CHR 0x5C, CHR ''b'']
      else if c = CHR 0x0C then [CHR 0x5C, CHR ''f'']
      else if 32 \<le> (of_char c :: nat) \<and> (of_char c :: nat) \<le> 126 then [c]
      else [CHR 0x5C, CHR ''u'', CHR ''0'', CHR ''0'',
            hex_char ((of_char c :: nat) div 16), hex_char ((of_char c :: nat) mod 16)])"

definition quote :: "string \<Rightarrow> string" where
  "quote s = CHR 0x22 # concat (map escape_char s) @ [CHR 0x22]"

fun json_dumps :: "json \<Rightarrow> string"
  and dumps_elems :: "json list \<Rightarrow> string"
  and dumps_members :: "(string \<times> json) list \<Rightarrow> string" where
  "json_dumps JNull = ''null''"
| "json_dumps (JBool b) = (if b then ''true'' else ''false'')"
| "json_dumps (JInt i) = string_of_int i"
| "json_dumps (JStr s) = quote s"
| "json_dumps (JArr xs) = ''['' @ dumps_elems xs @ '']''"
| "json_dumps (JObj kvs) = ''{'' @ dumps_members kvs @ ''}''"
| "dumps_elems [] = []"
| "dumps_elems [x] = json_dumps x"
| "dumps_elems (x # y # xs) = json_dumps x @ '', '' @ dumps_elems (y # xs)"
| "dumps_members [] = []"
| "dumps_members [(k, v)] = quote k @ '': '' @ json_dumps v"
| "dumps_members ((k, v) # kv # kvs) = quote k @ '': '' @ json_dumps v @ '', '' @ dumps_members (kv # kvs)"

definition skip_ws :: "string \<Rightarrow> string" where
  "skip_ws cs = dropWhile (\<lambda>c. c = CHR '' '' \<or> c = CHR 0x09 \<or> c = CHR 0x0A \<or> c = CHR 0x0D) cs"

definition hex_value :: "char \<Rightarrow> nat option" where
  "hex_value c =
     (let n = (of_char c :: nat) in
      if 48 \<le> n \<and> n \<le> 57 then Some (n - 48)
      else if 97 \<le> n \<and> n \<le> 102 then Some (n - 87)
      else if 65 \<le> n \<and> n \<le> 70 then Some (n - 55)
      else None)"

definition unescape :: "char \<Rightarrow> char option" where
  "unescape e =
     (if e = CHR 0x22 \<or> e = CHR 0x5C \<or> e = CHR ''/'' then Some e
      else if e = CHR ''n'' then Some (CHR 0x0A)
      else if e = CHR ''r'' then Some (CHR 0x0D)
      else if e = CHR ''t'' then Some (CHR 0x09)
      else if e = CHR ''b'' then Some (CHR 0x08)
      else if e = CHR ''f'' then Some (CHR 0x0C)
      else None)"

fun parse_string :: "string \<Rightarrow> string \<Rightarrow> (string \<times> string) option" where
  "parse_string [] acc = None"
| "parse_string (c # cs) acc =
     (if c = CHR 0x22 then Some (acc, cs)
      else if c = CHR 0x5C then
        (case cs of
           [] \<Rightarrow> None
         | e # cs1 \<Rightarrow>
             if e = CHR ''u'' then
               (case cs1 of
                  a # b # x # y # cs2 \<Rightarrow>
                    (case (hex_value a, hex_value b, hex_value x, hex_value y) of
                       (Some 0, Some 0, Some h, Some l) \<Rightarrow> parse_string cs2 (acc @ [char_of (16 * h + l)])
                     | _ \<Rightarrow> None)
                | _ \<Rightarrow> None)
             else (case unescape e of None \<Rightarrow> None | Some u \<Rightarrow> parse_string cs1 (acc @ [u])))
      else if (of_char c :: nat) < 32 then None
      else parse_string cs (acc @ [c]))"

definition is_digit :: "char \<Rightarrow> bool" where
  "is_digit c = (48 \<le> (of_char c :: nat) \<and> (of_char c :: nat) \<le> 57)"

definition digits_value :: "string \<Rightarrow> nat" where
  "digits_value ds = foldl (\<lambda>n c. 10 * n + ((of_char c :: nat) - 48)) 0 ds"

definition parse_nat :: "string \<Rightarrow> (nat \<times> string) option" where
  "parse_nat cs =
     (let ds = takeWhile is_digit cs; rest = dropWhile is_digit cs in
      if ds = [] \<or> (hd ds = CHR ''0'' \<and> tl ds \<noteq> []) then None
      else if rest \<noteq> [] \<and> (hd rest = CHR ''.'' \<or> hd rest = CHR ''e'' \<or> hd rest = CHR ''E'') then None
      else Some (digits_value ds, rest))"

fun parse_value :: "nat \<Rightarrow> string \<Rightarrow> (json \<times> string) option"
  and parse_elems :: "nat \<Rightarrow> string \<Rightarrow> json list \<Rightarrow> (json \<times> string) option"
  and parse_members :: "nat \<Rightarrow> string \<Rightarrow> (string \<times> json) list \<Rightarrow> (json \<times> string) option" where
  "parse_value 0 cs = None"
| "parse_value (Suc n) cs =
     (case skip_ws cs of
        [] \<Rightarrow> None
      | c # rest \<Rightarrow>
          if c = CHR 0x22 then
            (case parse_string rest [] of None \<Rightarrow> None | Some (s, r) \<Rightarrow> Some (JStr s, r))
          else if c = CHR ''['' then
            (case skip_ws rest of
               [] \<Rightarrow> None
             | d # r \<Rightarrow> if d = CHR '']'' then Some (JArr [], r) else parse_elems n rest [])
          else if c = CHR ''{'' then
            (case skip_ws rest of
               [] \<Rightarrow> None
             | d # r \<Rightarrow> if d = CHR ''}'' then Some (JObj [], r) else parse_members n rest [])
          else if take 4 (c # rest) = ''null'' then Some (JNull, drop 3 rest)
          else if take 4 (c # rest) = ''true'' then Some (JBool True, drop 3 rest)
          else if take 5 (c # rest) = ''false'' then Some (JBool False, drop 4 rest)
          else if c = CHR ''-'' then
            (case parse_nat rest of None \<Rightarrow> None | Some (m, r) \<Rightarrow> Some (JInt (- int m), r))
          else (case parse_nat (c # rest) of None \<Rightarrow> None | Some (m, r) \<Rightarrow> Some (JInt (int m), r)))"
| "parse_elems 0 cs acc = None"
| "parse_elems (Suc n) cs acc =
     (case parse_value n cs of
        None \<Rightarrow> None
      | Some (v, rest) \<Rightarrow>
          (case skip_ws rest of
             [] \<Rightarrow> None
           | d # r \<Rightarrow>
               if d = CHR '','' then parse_elems n r (acc @ [v])
               else if d = CHR '']'' then Some (JArr (acc @ [v]), r)
               else None))"
| "parse_members 0 cs acc = None"
| "parse_members (Suc n) cs acc =
     (case skip_ws cs of
        [] \<Rightarrow> None
      | q # r0 \<Rightarrow>
          if q \<noteq> CHR 0x22 then None
          else (case parse_string r0 [] of
                  None \<Rightarrow> None
                | Some (k, r1) \<Rightarrow>
                    (case skip_ws r1 of
                       [] \<Rightarrow> None
                     | colon # r2 \<Rightarrow>
                         if colon \<noteq> CHR '':'' then None
                         else (case parse_value n r2 of
                                 None \<Rightarrow> None
                               | Some (v, r3) \<Rightarrow>
                                   (case skip_ws r3 of
                                      [] \<Rightarrow> None
                                    | d # r \<Rightarrow>
                                        if d = CHR '','' then parse_members n r (AList.update k v acc)
                                        else if d = CHR ''}'' then Some (JObj (AList.update k v acc), r)
                                        else None)))))"

definition json_loads :: "string \<Rightarrow> json option" where
  "json_loads txt =
     (case parse_value (Suc (length txt)) txt of
        None \<Rightarrow> None
      | Some (v, rest) \<Rightarrow> if skip_ws rest = [] then Some v else None)"

section \<open>The vocabulary of the claims\<close>

text \<open>
  The inputs the claims speak of are lists of nulls and objects. A field is coerced to a
  string, a missing one to the empty string; \<open>read_back f\<close> is the record a non-empty
  object is expected to come back as, each field passed through \<open>f\<close> (the identity or
  \<open>strip\<close>), and a hole for anything else.
\<close>

fun null_or_dict :: "json \<Rightarrow> bool" where
  "null_or_dict JNull = True"
| "null_or_dict (JObj kvs) = True"
| "null_or_dict v = False"

definition coerced :: "(string \<times> json) list \<Rightarrow> string \<Rightarrow> string" where
  "coerced kvs name = (case map_of kvs name of None \<Rightarrow> [] | Some v \<Rightarrow> py_str v)"

fun read_back :: "(string \<Rightarrow> string) \<Rightarrow> json \<Rightarrow> slot_record option" where
  "read_back f (JObj (kv # kvs)) =
     Some \<lparr>subject = f (coerced (kv # kvs) ''subject''),
           current = f (coerced (kv # kvs) ''current''),
           target = f (coerced (kv # kvs) ''target'')\<rparr>"
| "read_back f v = None"

text \<open>The rows, and the canonical mapping, that a list of slots starting at index \<open>n\<close> leaves.\<close>

fun slot_rows :: "nat \<Rightarrow> json list \<Rightarrow> (int \<times> slot_record) list" where
  "slot_rows n [] = []"
| "slot_rows n (x # xs) =
     (case read_back (\<lambda>s. s) x of None \<Rightarrow> [] | Some r \<Rightarrow> [(int n, r)]) @ slot_rows (Suc n) xs"

fun canonical :: "nat \<Rightarrow> json list \<Rightarrow> (string \<times> slot_record) list" where
  "canonical n [] = []"
| "canonical n (x # xs) =
     (case read_back strip x of None \<Rightarrow> [] | Some r \<Rightarrow> [(string_of_nat n, r)]) @ canonical (Suc n) xs"

definition strip_record :: "slot_record \<Rightarrow> slot_record" where
  "strip_record r = \<lparr>subject = strip (subject r), current = strip (current r), target = strip (target r)\<rparr>"

text \<open>The payloads that POST /api/goal accepts: an object with the key \<open>goal\<close>.\<close>

definition has_goal :: "json \<Rightarrow> bool" where
  "has_goal payload = (case payload of JObj kvs \<Rightarrow> map_of kvs ''goal'' \<noteq> None | _ \<Rightarrow> False)"

section \<open>Properties\<close>

subsection \<open>Decimal digits\<close>

lemma string_of_nat_digit: "n < 10 \<Longrightarrow> string_of_nat n = [digit_char n]"
  by (simp add: string_of_nat.simps)

lemma string_of_nat_digits [simp]:
  "string_of_nat 0 = ''0''" "string_of_nat (Suc 0) = ''1''" "string_of_nat 2 = ''2''"
  "string_of_nat 3 = ''3''" "string_of_nat 4 = ''4''" "string_of_nat 5 = ''5''"
  by (simp_all add: string_of_nat_digit digit_char_def)

text \<open>The decimal text determines the number: reading the digits gives it back.\<close>

lemma digits_value_snoc: "digits_value (ds @ [c]) = 10 * digits_value ds + ((of_char c :: nat) - 48)"
  by (simp add: digits_value_def)

lemma digit_char_value: "d < 10 \<Longrightarrow> (of_char (digit_char d) :: nat) - 48 = d"
proof -
  assume "d < 10"
  then have "d \<in> {0, 1, 2, 3, 4, 5, 6, 7, 8, 9}" by auto
  then show ?thesis by (auto simp: digit_char_def)
qed

lemma digits_value_string_of_nat: "digits_value (string_of_nat n) = n"
proof (induction n rule: string_of_nat.induct)
  case (1 n)
  show ?case
  proof (cases "n < 10")
    case True
    then show ?thesis
      using digit_char_value [of n] by (simp add: string_of_nat.simps [of n] digits_value_def)
  next
    case False
    then have "digits_value (string_of_nat (n div 10)) = n div 10" using 1 by simp
    then show ?thesis
      using False digit_char_value [of "n mod 10"]
      by (simp add: string_of_nat.simps [of n] digits_value_snoc)
  qed
qed

lemma string_of_nat_inj: "string_of_nat m = string_of_nat n \<Longrightarrow> m = n"
  using digits_value_string_of_nat by metis

subsection \<open>Stripping twice\<close>

lemma dropWhile_idem: "dropWhile P (dropWhile P xs) = dropWhile P xs"
  by (induction xs) auto

lemma strip_head: "strip s = c # cs \<Longrightarrow> \<not> py_isspace c"
proof -
  assume a: "strip s = c # cs"
  define t where "t = dropWhile py_isspace s"
  have "rev (dropWhile py_isspace (rev t)) = c # cs" using a by (simp add: strip_def t_def)
  moreover have "\<exists>w. t = rev (dropWhile py_isspace (rev t)) @ w"
    by (metis rev_append rev_rev_ident takeWhile_dropWhile_id)
  ultimately obtain w where "t = c # cs @ w" by auto
  then have "hd t = c" "t \<noteq> []" by simp_all
  then show ?thesis unfolding t_def by (metis hd_dropWhile)
qed

lemma strip_idem: "strip (strip s) = strip s"
proof (cases "strip s")
  case Nil
  have "strip [] = []" by (simp add: strip_def)
  with Nil show ?thesis by simp
next
  case (Cons c cs)
  then have "\<not> py_isspace c" by (rule strip_head)
  then have "dropWhile py_isspace (strip s) = strip s" using Cons by simp
  then have "strip (strip s) = rev (dropWhile py_isspace (rev (strip s)))"
    by (simp add: strip_def [of "strip s"])
  also have "\<dots> = strip s" by (simp add: strip_def [of s] dropWhile_idem)
  finally show ?thesis .
qed

subsection \<open>Database.py: what a saved snapshot leaves in the table\<close>

lemma row_values_dict:
  "row_values (JObj kvs) =
     Inr \<lparr>subject = coerced kvs ''subject'', current = coerced kvs ''current'',
          target = coerced kvs ''target''\<rparr>"
  by (simp add: row_values_def coerced_def dict_get_def split: option.split)

lemma read_back_None: "null_or_dict x \<Longrightarrow> read_back f x = None \<Longrightarrow> \<not> truthy x"
  by (cases x; cases "case x of JObj kvs \<Rightarrow> kvs | _ \<Rightarrow> []") auto

lemma read_back_Some: "read_back f x = Some r \<Longrightarrow> \<exists>kv kvs. x = JObj (kv # kvs)"
  by (cases x; cases "case x of JObj kvs \<Rightarrow> kvs | _ \<Rightarrow> []") auto

lemma slot_rows_keys: "k \<in> fst ` set (slot_rows n xs) \<Longrightarrow> int n \<le> k \<and> k < int (n + length xs)"
proof (induction xs arbitrary: n)
  case Nil
  then show ?case by simp
next
  case (Cons x xs)
  then show ?case by (fastforce split: option.splits)
qed

lemma insert_slots_rows:
  "list_all null_or_dict xs \<Longrightarrow> \<forall>k \<in> fst ` set rows. k < int n \<Longrightarrow>
   insert_slots (enumerate n xs) rows = Inr (rows @ slot_rows n xs)"
proof (induction xs arbitrary: n rows)
  case Nil
  then show ?case by simp
next
  case (Cons x xs)
  from Cons.prems(1) have rest: "list_all null_or_dict xs" by simp
  show ?case
  proof (cases "read_back (\<lambda>s. s) x")
    case None
    with Cons.prems(1) have "\<not> truthy x" using read_back_None [of x "\<lambda>s. s"] by simp
    moreover have "\<forall>k \<in> fst ` set rows. k < int (Suc n)" using Cons.prems(2) by fastforce
    ultimately show ?thesis using None Cons.IH [OF rest] by simp
  next
    case (Some r)
    then obtain kv kvs where x: "x = JObj (kv # kvs)" using read_back_Some by blast
    have fresh: "int n \<notin> fst ` set rows" using Cons.prems(2) by fastforce
    have "\<forall>k \<in> fst ` set (rows @ [(int n, r)]). k < int (Suc n)" using Cons.prems(2) by fastforce
    from Cons.IH [OF rest this] show ?thesis
      using Some fresh x by (simp add: row_values_dict insert_row_def)
  qed
qed

lemma slot_rows_sorted: "sorted (map fst (slot_rows n xs))"
proof (induction xs arbitrary: n)
  case Nil
  then show ?case by simp
next
  case (Cons x xs)
  have "\<And>k. k \<in> fst ` set (slot_rows (Suc n) xs) \<Longrightarrow> int n \<le> k"
    using slot_rows_keys [of _ "Suc n" xs] by fastforce
  then show ?case using Cons.IH [of "Suc n"] by (auto split: option.splits)
qed

lemma fill_slots_rows:
  "length pre = n \<Longrightarrow> n + length xs \<le> SLOT_COUNT \<Longrightarrow>
   fill_slots (slot_rows n xs) (pre @ replicate (length xs) None @ post)
     = pre @ map (read_back (\<lambda>s. s)) xs @ post"
proof (induction xs arbitrary: n pre)
  case Nil
  then show ?case by simp
next
  case (Cons x xs)
  have len: "length (pre @ [read_back (\<lambda>s. s) x]) = Suc n" using Cons.prems(1) by simp
  have bound: "Suc n + length xs \<le> SLOT_COUNT" using Cons.prems(2) by simp
  have inr: "int n < int SLOT_COUNT" using Cons.prems(2) by simp
  from Cons.IH [OF len bound] show ?case
    using Cons.prems(1) inr by (cases "read_back (\<lambda>s. s) x") (simp_all add: list_update_append)
qed

lemma Database_save_ok:
  assumes "length xs = SLOT_COUNT" "list_all null_or_dict xs"
  shows "Database_save_subjects xs st
           = (Inr (), st\<lparr>db := (db st)\<lparr>subject_slots := slot_rows 0 xs\<rparr>,
                          events := events st @ [Connect, Commit, Connect, Commit]\<rparr>)"
proof -
  have ins: "insert_slots (enumerate 0 xs) [] = Inr (slot_rows 0 xs)"
    using insert_slots_rows [OF assms(2), of "[]" 0] by simp
  show ?thesis
    using assms(1) ins
    by (simp add: Database_save_subjects_def Database_get_connection_def Database_init_db_def Let_def)
qed

lemma Database_load_rows:
  assumes "length xs = SLOT_COUNT" "subject_slots (db st) = slot_rows 0 xs"
  shows "fst (Database_load_subjects st) = Inr (map (read_back (\<lambda>s. s)) xs)"
proof -
  have fill: "fill_slots (slot_rows 0 xs) (replicate SLOT_COUNT None) = map (read_back (\<lambda>s. s)) xs"
    using fill_slots_rows [of "[]" 0 xs "[]"] assms(1) by simp
  show ?thesis
    using assms(2) fill
    by (simp add: Database_load_subjects_def Database_get_connection_def
        Database_init_db_def sort_key_id_if_sorted [OF slot_rows_sorted])
qed

subsection \<open>database.py: what a saved snapshot leaves, and what a reload recovers\<close>

lemma update_fresh: "k \<notin> fst ` set al \<Longrightarrow> AList.update k v al = al @ [(k, v)]"
  by (induction al) auto

lemma coerced_dict_get: "coerced kvs name = py_str (dict_get kvs name (JStr []))"
  by (simp add: coerced_def dict_get_def split: option.split)

lemma read_back_strip_Some:
  "read_back strip x = Some r \<Longrightarrow> \<exists>kv kvs. x = JObj (kv # kvs) \<and> r = stripped_record (kv # kvs)"
  by (cases x; cases "case x of JObj kvs \<Rightarrow> kvs | _ \<Rightarrow> []")
     (auto simp: stripped_record_def coerced_dict_get)

lemma canonical_keys:
  "k \<in> fst ` set (canonical n xs) \<Longrightarrow> \<exists>i. n \<le> i \<and> i < n + length xs \<and> k = string_of_nat i"
proof (induction xs arbitrary: n)
  case Nil
  then show ?case by simp
next
  case (Cons x xs)
  show ?case
  proof (cases "k \<in> fst ` set (canonical (Suc n) xs)")
    case True
    from Cons.IH [OF this] obtain i where "Suc n \<le> i" "i < Suc n + length xs" "k = string_of_nat i"
      by blast
    then have "n \<le> i \<and> i < n + length (x # xs) \<and> k = string_of_nat i" by simp
    then show ?thesis by blast
  next
    case False
    with Cons.prems have "k = string_of_nat n" by (auto split: option.splits)
    then have "n \<le> n \<and> n < n + length (x # xs) \<and> k = string_of_nat n" by simp
    then show ?thesis by blast
  qed
qed

lemma normalize_items_canonical:
  "list_all null_or_dict xs \<Longrightarrow> \<forall>k \<in> fst ` set acc. \<exists>i<n. k = string_of_nat i \<Longrightarrow>
   normalize_items (enumerate n xs) acc = Inr (acc @ canonical n xs)"
proof (induction xs arbitrary: n acc)
  case Nil
  then show ?case by simp
next
  case (Cons x xs)
  from Cons.prems(1) have rest: "list_all null_or_dict xs" by simp
  show ?case
  proof (cases "read_back strip x")
    case None
    with Cons.prems(1) have "\<not> truthy x" using read_back_None [of x strip] by simp
    moreover have "\<forall>k \<in> fst ` set acc. \<exists>i<Suc n. k = string_of_nat i"
      using Cons.prems(2) less_Suc_eq by auto
    ultimately show ?thesis using None Cons.IH [OF rest] by simp
  next
    case (Some r)
    then obtain kv kvs where x: "x = JObj (kv # kvs)" and r: "r = stripped_record (kv # kvs)"
      using read_back_strip_Some by blast
    have fresh: "string_of_nat n \<notin> fst ` set acc"
    proof
      assume "string_of_nat n \<in> fst ` set acc"
      then obtain i where "i < n" "string_of_nat n = string_of_nat i" using Cons.prems(2) by blast
      then show False using string_of_nat_inj by blast
    qed
    have "\<forall>k \<in> fst ` set (acc @ [(string_of_nat n, r)]). \<exists>i<Suc n. k = string_of_nat i"
      using Cons.prems(2) less_Suc_eq by auto
    from Cons.IH [OF rest this] show ?thesis
      using Some x r by (simp add: update_fresh [OF fresh])
  qed
qed

lemma canonical_distinct: "distinct (map fst (canonical n xs))"
proof (induction xs arbitrary: n)
  case Nil
  then show ?case by simp
next
  case (Cons x xs)
  have "string_of_nat n \<notin> fst ` set (canonical (Suc n) xs)"
  proof
    assume "string_of_nat n \<in> fst ` set (canonical (Suc n) xs)"
    then obtain i where "Suc n \<le> i" "string_of_nat n = string_of_nat i"
      using canonical_keys by blast
    then show False using string_of_nat_inj by fastforce
  qed
  then show ?case using Cons.IH [of "Suc n"] by (auto split: option.splits)
qed

lemma strip_record_stripped: "strip_record (stripped_record kvs) = stripped_record kvs"
  by (simp add: strip_record_def stripped_record_def strip_idem)

lemma canonical_stripped: "(k, r) \<in> set (canonical n xs) \<Longrightarrow> strip_record r = r"
proof (induction xs arbitrary: n)
  case Nil
  then show ?case by simp
next
  case (Cons x xs)
  show ?case
  proof (cases "(k, r) \<in> set (canonical (Suc n) xs)")
    case True
    then show ?thesis by (rule Cons.IH)
  next
    case False
    with Cons.prems have "read_back strip x = Some r" by (auto split: option.splits)
    then obtain kvs where "r = stripped_record kvs" using read_back_strip_Some by blast
    then show ?thesis by (simp add: strip_record_stripped)
  qed
qed

lemma stripped_record_json: "stripped_record [(''subject'', JStr a), (''current'', JStr b), (''target'', JStr c)]
    = strip_record \<lparr>subject = a, current = b, target = c\<rparr>"
  by (simp add: stripped_record_def strip_record_def dict_get_def)

lemma recover_items_mirror:
  "distinct (map fst (acc @ m)) \<Longrightarrow> \<forall>(k, r) \<in> set m. strip_record r = r \<Longrightarrow>
   recover_items (map (\<lambda>(k, r). (k, record_json r)) m) acc = acc @ m"
proof (induction m arbitrary: acc)
  case Nil
  then show ?case by simp
next
  case (Cons kr m)
  obtain k r where kr: "kr = (k, r)" by (cases kr)
  have fresh: "k \<notin> fst ` set acc" using Cons.prems(1) kr by auto
  have r: "strip_record r = r" using Cons.prems(2) kr by auto
  have rec: "stripped_record [(''subject'', JStr (subject r)), (''current'', JStr (current r)),
      (''target'', JStr (target r))] = r"
    using r by (cases r) (simp add: stripped_record_json)
  have "distinct (map fst ((acc @ [(k, r)]) @ m))" using Cons.prems(1) kr by simp
  moreover have "\<forall>(k, r) \<in> set m. strip_record r = r" using Cons.prems(2) by simp
  ultimately have "recover_items (map (\<lambda>(k, r). (k, record_json r)) m) (acc @ [(k, r)])
      = (acc @ [(k, r)]) @ m"
    by (rule Cons.IH)
  then show ?case using kr rec by (simp add: record_json_def update_fresh [OF fresh])
qed

lemma canonical_lookup:
  "map_of (canonical n xs) (string_of_nat i)
     = (if n \<le> i \<and> i < n + length xs then read_back strip (xs ! (i - n)) else None)"
proof (induction xs arbitrary: n)
  case Nil
  then show ?case by auto
next
  case (Cons x xs)
  have later: "i = n \<Longrightarrow> map_of (canonical (Suc n) xs) (string_of_nat i) = None"
    using Cons.IH [of "Suc n"] by simp
  show ?case
  proof (cases "i = n")
    case True
    then show ?thesis using later by (auto simp: map_add_def split: option.splits)
  next
    case False
    then have ne: "string_of_nat n \<noteq> string_of_nat i" using string_of_nat_inj by blast
    have "map_of (canonical n (x # xs)) (string_of_nat i) = map_of (canonical (Suc n) xs) (string_of_nat i)"
      using ne by (auto split: option.splits)
    then show ?thesis using False Cons.IH [of "Suc n"] by (auto simp: nth_Cons')
  qed
qed

lemma canonical_read: "map (\<lambda>i. map_of (canonical 0 xs) (string_of_nat i)) [0..<length xs] = map (read_back strip) xs"
  by (rule nth_equalityI) (simp_all add: canonical_lookup)

lemmas lib_defs = get_connection_def init_db_def save_subject_def upsert_entry_def

lemma save_subjects_snapshot_ok:
  assumes "length xs = n" "list_all null_or_dict xs"
  shows "save_subjects_snapshot dumps (JArr xs) n st
           = (Inr (), st\<lparr>subjects := canonical 0 xs,
                  subject_entries := AList.update SUBJECTS_KEY (dumps (mirror_json (canonical 0 xs)))
                                       (subject_entries st),
                  events := events st @ [Connect, Commit, Close, Connect, Commit, Close]\<rparr>)"
proof -
  have "normalize_subject_payload (JArr xs) n = Inr (canonical 0 xs)"
    using assms normalize_items_canonical [of xs "[]" 0] by (simp add: normalize_subject_payload_def)
  then show ?thesis
    by (simp add: save_subjects_snapshot_def lib_defs SUBJECTS_KEY_def)
qed

lemma load_subjects_snapshot_mirror:
  assumes "map_of (subject_entries st) SUBJECTS_KEY = Some raw" "raw \<noteq> []"
    "loads raw = Some (mirror_json m)" "distinct (map fst m)" "\<forall>(k, r) \<in> set m. strip_record r = r"
  shows "load_subjects_snapshot loads n st
           = (Inr (map (\<lambda>i. map_of m (string_of_nat i)) [0..<n]),
              st\<lparr>subjects := m, events := events st @ [Connect, Commit, Close, Connect, Commit, Close]\<rparr>)"
proof -
  have "recover_items (map (\<lambda>(k, r). (k, record_json r)) m) [] = m"
    using recover_items_mirror [of "[]" m] assms(4,5) by simp
  then show ?thesis
    using assms(1,2,3) by (simp add: load_subjects_snapshot_def lib_defs mirror_json_def)
qed

lemma read_back_stripped: "map_option strip_record (read_back (\<lambda>s. s) x) = read_back strip x"
  by (cases x; cases "case x of JObj kvs \<Rightarrow> kvs | _ \<Rightarrow> []") (auto simp: strip_record_def)

subsection \<open>Rows with a primary key\<close>

lemma fold_update_distinct:
  "distinct (map fst (acc @ rows)) \<Longrightarrow> fold (\<lambda>(k, v). AList.update k v) rows acc = acc @ rows"
proof (induction rows arbitrary: acc)
  case Nil
  then show ?case by simp
next
  case (Cons kv rows)
  obtain k v where kv: "kv = (k, v)" by (cases kv)
  have fresh: "k \<notin> fst ` set acc" using Cons.prems kv by auto
  have "distinct (map fst ((acc @ [(k, v)]) @ rows))" using Cons.prems kv by simp
  then have "fold (\<lambda>(k, v). AList.update k v) rows (acc @ [(k, v)]) = (acc @ [(k, v)]) @ rows"
    by (rule Cons.IH)
  then show ?case using kv by (simp add: update_fresh [OF fresh])
qed

lemma dict_of_rows_distinct: "distinct (map fst rows) \<Longrightarrow> dict_of_rows rows = rows"
  using fold_update_distinct [of "[]" rows] by (simp add: dict_of_rows_def)

lemma sort_key_distinct_keys: "distinct (map fst rows) \<Longrightarrow> distinct (map fst (sort_key fst rows))"
  by (simp add: distinct_map)

lemma map_of_sort_key: "distinct (map fst rows) \<Longrightarrow> map_of (sort_key fst rows) = map_of rows"
  using map_of_inject_set [of "sort_key fst rows" rows] sort_key_distinct_keys [of rows] by simp

subsection \<open>Reloading what holds no object\<close>



subsection \<open>What normalisation always produces\<close>

lemma update_member: "(k', r') \<in> set (AList.update k v al) \<Longrightarrow> (k', r') = (k, v) \<or> (k', r') \<in> set al"
  by (induction al) (auto split: if_splits)

lemma normalize_items_invariant:
  "normalize_items items acc = Inr m \<Longrightarrow> distinct (map fst acc) \<Longrightarrow>
   \<forall>(k, r) \<in> set acc. strip_record r = r \<Longrightarrow>
   distinct (map fst m) \<and> (\<forall>(k, r) \<in> set m. strip_record r = r)"
proof (induction items arbitrary: acc)
  case Nil
  then show ?case by simp
next
  case (Cons p items)
  obtain index item where p: "p = (index, item)" by (cases p)
  show ?case
  proof (cases "truthy item")
    case False
    with Cons.prems p have "normalize_items items acc = Inr m" by simp
    from Cons.IH [OF this Cons.prems(2,3)] show ?thesis .
  next
    case True
    with Cons.prems(1) p obtain kvs where item: "item = JObj kvs"
      by (cases item) simp_all
    let ?acc = "AList.update (string_of_nat index) (stripped_record kvs) acc"
    have step: "normalize_items items ?acc = Inr m" using Cons.prems(1) p True item by simp
    have d: "distinct (map fst ?acc)" using Cons.prems(2) by (rule distinct_update)
    have s: "\<forall>(k, r) \<in> set ?acc. strip_record r = r"
      using Cons.prems(3) update_member [of _ _ "string_of_nat index" "stripped_record kvs" acc]
        strip_record_stripped by fastforce
    from Cons.IH [OF step d s] show ?thesis .
  qed
qed

lemma normalize_payload_invariant:
  "normalize_subject_payload payload n = Inr m \<Longrightarrow>
   distinct (map fst m) \<and> (\<forall>(k, r) \<in> set m. strip_record r = r)"
  using normalize_items_invariant [of _ "[]" m]
  by (cases payload) (auto simp: normalize_subject_payload_def split: if_splits)

lemma save_subjects_snapshot_cases:
  "save_subjects_snapshot dumps payload n st =
     (case normalize_subject_payload payload n of
        Inl e \<Rightarrow> (Inl e, st)
      | Inr m \<Rightarrow> (Inr (), st\<lparr>subjects := m,
                    subject_entries := AList.update SUBJECTS_KEY (dumps (mirror_json m)) (subject_entries st),
                    events := events st @ [Connect, Commit, Close, Connect, Commit, Close]\<rparr>))"
  by (simp add: save_subjects_snapshot_def lib_defs SUBJECTS_KEY_def split: sum.split)

subsection \<open>The goal handlers unfolded\<close>

lemmas goal_defs = set_goal_def get_goal_def save_goal_def load_goal_def
  Database_get_connection_def Database_init_db_def jsonify_def bad_request_def

subsection \<open>The claims\<close>

text \<open>
  C8. \<open>load_goal\<close> gives the empty string on the empty store, and in any state the goal of
  row 1 or the empty string when there is no such row; after \<open>save_goal x\<close>, for any
  string \<open>x\<close> (the empty one too) and from any state, the save succeeds and \<open>load_goal\<close> gives
  exactly \<open>x\<close>; after a second \<open>save_goal y\<close> it gives \<open>y\<close>, and one goal row is all that
  is kept.
\<close>

theorem load_goal_latest:
  "fst (load_goal empty_app) = Inr []
   \<and> fst (load_goal st) = Inr (case map_of (goals (db st)) 1 of None \<Rightarrow> [] | Some g \<Rightarrow> g)
   \<and> fst (save_goal (JStr x) st) = Inr ()
   \<and> fst (load_goal (snd (save_goal (JStr x) st))) = Inr x
   \<and> fst (load_goal (snd (save_goal (JStr y) (snd (save_goal (JStr x) st))))) = Inr y
   \<and> goals (db (snd (save_goal (JStr y) (snd (save_goal (JStr x) empty_app))))) = [(1, y)]"
  by (simp add: load_goal_def save_goal_def Database_get_connection_def Database_init_db_def
      empty_app_def update_conv')

text \<open>
  C4. POST /api/subjects answers 400 with \<open>Payload must be a list.\<close> to every body that
  is not a JSON array and leaves the state alone; when the write path raises a
  \<open>ValueError\<close> it answers 400 with that error's message; and for every array of five
  nulls and objects it answers \<open>{"status": "ok"}\<close>, after which GET /api/subjects returns
  the five slots just written: null for a null or an empty object, and for any other object
  its three fields coerced to strings.
\<close>

theorem set_subjects_responses:
  "(\<not> is_list payload \<longrightarrow>
      set_subjects payload st = (Inr (bad_request ''Payload must be a list.''), st))
   \<and> (fst (Database_save_subjects xs st) = Inl (ValueError msg) \<longrightarrow>
        fst (set_subjects (JArr xs) st) = Inr (bad_request msg))
   \<and> (length xs = 5 \<and> list_all null_or_dict xs \<longrightarrow>
        fst (set_subjects (JArr xs) st) = Inr (jsonify (JObj [(''status'', JStr ''ok'')]))
        \<and> fst (get_subjects (snd (set_subjects (JArr xs) st)))
            = Inr (jsonify (JArr (map (\<lambda>x. slot_json (read_back (\<lambda>s. s) x)) xs))))"
proof (intro conjI impI)
  assume "\<not> is_list payload"
  then show "set_subjects payload st = (Inr (bad_request ''Payload must be a list.''), st)"
    by (cases payload) (simp_all add: set_subjects_def)
next
  assume "fst (Database_save_subjects xs st) = Inl (ValueError msg)"
  then show "fst (set_subjects (JArr xs) st) = Inr (bad_request msg)"
    by (cases "Database_save_subjects xs st") (simp add: set_subjects_def)
next
  assume a: "length xs = 5 \<and> list_all null_or_dict xs"
  then have len: "length xs = SLOT_COUNT" and nd: "list_all null_or_dict xs"
    by (simp_all add: SLOT_COUNT_def)
  note ok = Database_save_ok [OF len nd, of st]
  show "fst (set_subjects (JArr xs) st) = Inr (jsonify (JObj [(''status'', JStr ''ok'')]))"
    by (simp add: set_subjects_def ok)
  have "fst (Database_load_subjects (snd (Database_save_subjects xs st)))
          = Inr (map (read_back (\<lambda>s. s)) xs)"
    by (rule Database_load_rows [OF len]) (simp add: ok)
  then show "fst (get_subjects (snd (set_subjects (JArr xs) st)))
            = Inr (jsonify (JArr (map (\<lambda>x. slot_json (read_back (\<lambda>s. s) x)) xs)))"
    by (cases "Database_load_subjects (snd (Database_save_subjects xs st))")
       (simp add: set_subjects_def get_subjects_def ok comp_def)
qed

theorem set_subjects_responses_witness:
  "\<not> is_list (JObj [])
   \<and> set_subjects (JObj []) empty_app = (Inr (bad_request ''Payload must be a list.''), empty_app)
   \<and> fst (Database_save_subjects [JNull] empty_app) = Inl (ValueError ''Expected 5 slots, got 1.'')
   \<and> fst (set_subjects (JArr [JNull]) empty_app) = Inr (bad_request ''Expected 5 slots, got 1.'')
   \<and> length [JObj [(''subject'', JStr ''Maths''), (''current'', JInt 5)], JNull, JObj [], JNull, JNull] = 5
   \<and> list_all null_or_dict [JObj [(''subject'', JStr ''Maths''), (''current'', JInt 5)], JNull, JObj [], JNull, JNull]
   \<and> fst (get_subjects (snd (set_subjects
         (JArr [JObj [(''subject'', JStr ''Maths''), (''current'', JInt 5)], JNull, JObj [], JNull, JNull]) empty_app)))
       = Inr (jsonify (JArr
           [JObj [(''subject'', JStr ''Maths''), (''current'', JStr ''5''), (''target'', JStr [])],
            JNull, JNull, JNull, JNull]))"
proof -
  have h1: "\<not> is_list (JObj [])" by simp
  have h2: "fst (Database_save_subjects [JNull] empty_app) = Inl (ValueError ''Expected 5 slots, got 1.'')"
    by (simp add: Database_save_subjects_def SLOT_COUNT_def Let_def)
  have h3: "length [JObj [(''subject'', JStr ''Maths''), (''current'', JInt 5)], JNull, JObj [], JNull, JNull] = 5
     \<and> list_all null_or_dict [JObj [(''subject'', JStr ''Maths''), (''current'', JInt 5)], JNull, JObj [], JNull, JNull]"
    by simp
  show ?thesis
    using h1 h2 h3
      set_subjects_responses [of "JObj []" empty_app "[JNull]" "''Expected 5 slots, got 1.''"]
      set_subjects_responses [of "JObj []" empty_app
        "[JObj [(''subject'', JStr ''Maths''), (''current'', JInt 5)], JNull, JObj [], JNull, JNull]" "[]"]
    by (simp add: slot_json_def coerced_def string_of_int_def)
qed

text \<open>
  C10, as stated, fails: an object payload whose \<open>goal\<close> is null gets no
  \<open>{"status": "ok"}\<close>, because the column \<open>goal TEXT NOT NULL\<close> refuses it and the
  exception leaves the handler.
\<close>

theorem set_goal_null_counterexample:
  "set_goal (JObj [(''goal'', JNull)]) empty_app
     = (Inl IntegrityError, empty_app\<lparr>events := [Connect, Commit, Connect, Rollback]\<rparr>)"
  by (simp add: goal_defs empty_app_def)

text \<open>
  C10, amended. POST /api/goal validates only the payload's shape: it answers 400 exactly
  when the payload is not an object or lacks the key \<open>goal\<close>, and otherwise hands the value
  unvalidated to \<open>save_goal\<close>, answering \<open>{"status": "ok"}\<close> when that returns and letting
  its exception through when it raises. \<open>save_goal\<close> returns for a string, a boolean and a
  64-bit integer: GET /api/goal then gives the string itself, and for a boolean or an
  integer its decimal text. It raises for null, for an array and for an object, and
  whenever it raises the stored tables are unchanged.
\<close>

theorem set_goal_shape_only:
  "((\<exists>r. fst (set_goal payload st) = Inr r \<and> status_code r = 400) = (\<not> has_goal payload))
   \<and> (map_of kvs ''goal'' = Some g \<longrightarrow>
        snd (set_goal (JObj kvs) st) = snd (save_goal g st)
        \<and> fst (set_goal (JObj kvs) st)
            = (case fst (save_goal g st) of
                 Inl e \<Rightarrow> Inl e
               | Inr u \<Rightarrow> Inr (jsonify (JObj [(''status'', JStr ''ok'')]))))
   \<and> fst (save_goal (JStr s) st) = Inr ()
   \<and> fst (get_goal (snd (save_goal (JStr s) st))) = Inr (jsonify (JObj [(''goal'', JStr s)]))
   \<and> fst (save_goal (JBool b) st) = Inr ()
   \<and> fst (get_goal (snd (save_goal (JBool b) st)))
       = Inr (jsonify (JObj [(''goal'', JStr (if b then ''1'' else ''0''))]))
   \<and> (- (2 ^ 63) \<le> i \<and> i < 2 ^ 63 \<longrightarrow>
        fst (save_goal (JInt i) st) = Inr ()
        \<and> fst (get_goal (snd (save_goal (JInt i) st)))
            = Inr (jsonify (JObj [(''goal'', JStr (string_of_int i))])))
   \<and> fst (save_goal JNull st) = Inl IntegrityError
   \<and> fst (save_goal (JArr xs) st) = Inl ProgrammingError
   \<and> fst (save_goal (JObj ys) st) = Inl ProgrammingError
   \<and> (\<not> (\<exists>u. fst (save_goal v st) = Inr u) \<longrightarrow> db (snd (save_goal v st)) = db st)"
proof (intro conjI impI)
  show "(\<exists>r. fst (set_goal payload st) = Inr r \<and> status_code r = 400) = (\<not> has_goal payload)"
    by (cases payload)
       (auto simp: has_goal_def goal_defs split: option.splits sum.splits prod.splits)
next
  assume "map_of kvs ''goal'' = Some g"
  then show "snd (set_goal (JObj kvs) st) = snd (save_goal g st)"
    and "fst (set_goal (JObj kvs) st)
            = (case fst (save_goal g st) of
                 Inl e \<Rightarrow> Inl e
               | Inr u \<Rightarrow> Inr (jsonify (JObj [(''status'', JStr ''ok'')])))"
    by (cases "save_goal g st"; cases "fst (save_goal g st)"; simp add: set_goal_def)+
next
  assume "\<not> (\<exists>u. fst (save_goal v st) = Inr u)"
  then show "db (snd (save_goal v st)) = db st"
    by (auto simp: goal_defs split: sum.splits)
qed (simp_all add: goal_defs update_conv' string_of_int_def string_of_nat_digit digit_char_def)

theorem set_goal_shape_only_witness:
  "map_of [(''goal'', JInt 42)] ''goal'' = Some (JInt 42)
   \<and> - (2 ^ 63) \<le> (42::int) \<and> (42::int) < 2 ^ 63
   \<and> \<not> (\<exists>u. fst (save_goal JNull empty_app) = Inr u)
   \<and> fst (set_goal (JObj [(''goal'', JInt 42)]) empty_app)
       = Inr (jsonify (JObj [(''status'', JStr ''ok'')]))
   \<and> fst (get_goal (snd (set_goal (JObj [(''goal'', JInt 42)]) empty_app)))
       = Inr (jsonify (JObj [(''goal'', JStr ''42'')]))
   \<and> db (snd (save_goal JNull empty_app)) = db empty_app"
proof -
  have h1: "map_of [(''goal'', JInt 42)] ''goal'' = Some (JInt 42)" by simp
  have h2: "- (2 ^ 63) \<le> (42::int) \<and> (42::int) < 2 ^ 63" by simp
  have h3: "\<not> (\<exists>u. fst (save_goal JNull empty_app) = Inr u)"
    by (simp add: goal_defs)
  have dec: "string_of_int 42 = ''42''"
    by (simp add: string_of_int_def string_of_nat.simps digit_char_def)
  show ?thesis
    using h1 h2 h3 dec
      set_goal_shape_only [where st = empty_app and kvs = "[(''goal'', JInt 42)]"
        and g = "JInt 42" and i = 42 and v = JNull]
    by simp
qed

text \<open>
  C1, as stated, fails: an empty object in the list is skipped by \<open>if not item\<close> like a
  null, in both modules, and reads back as a hole, not as a record of three empty strings.
\<close>

theorem empty_object_round_trip_counterexample:
  "fst (load_subjects_snapshot json_loads SLOT_COUNT
         (snd (save_subjects_snapshot json_dumps (JArr [JObj [], JNull, JNull, JNull, JNull])
                 SLOT_COUNT empty_lib)))
     = Inr [None, None, None, None, None]
   \<and> fst (Database_load_subjects
           (snd (Database_save_subjects [JObj [], JNull, JNull, JNull, JNull] empty_app)))
       = Inr [None, None, None, None, None]"
  by code_simp

text \<open>
  C1, amended. For every list of five elements, each null or an object, writing the
  snapshot and reading it back succeeds and gives five slots: a hole where the element was
  null or the empty object, and for every other object the record of its three fields,
  each coerced to a string (a missing one to the empty string) and trimmed. With
  database.py this is the read-back itself, for every codec that reads back the text it
  wrote for the canonical mapping; with Database.py it is the read-back once its fields
  are trimmed.
\<close>

theorem snapshot_round_trip:
  "length xs = 5 \<and> list_all null_or_dict xs \<longrightarrow>
     fst (Database_save_subjects xs st) = Inr ()
     \<and> map_sum id (map (map_option strip_record))
          (fst (Database_load_subjects (snd (Database_save_subjects xs st))))
         = Inr (map (read_back strip) xs)
     \<and> (dumps (mirror_json (canonical 0 xs)) \<noteq> []
          \<and> loads (dumps (mirror_json (canonical 0 xs))) = Some (mirror_json (canonical 0 xs)) \<longrightarrow>
         fst (save_subjects_snapshot dumps (JArr xs) SLOT_COUNT lst) = Inr ()
         \<and> fst (load_subjects_snapshot loads SLOT_COUNT
                  (snd (save_subjects_snapshot dumps (JArr xs) SLOT_COUNT lst)))
             = Inr (map (read_back strip) xs))"
proof (intro impI conjI)
  assume a: "length xs = 5 \<and> list_all null_or_dict xs"
  then have len: "length xs = SLOT_COUNT" and nd: "list_all null_or_dict xs"
    by (simp_all add: SLOT_COUNT_def)
  note ok = Database_save_ok [OF len nd, of st]
  show "fst (Database_save_subjects xs st) = Inr ()" by (simp add: ok)
  have "fst (Database_load_subjects (snd (Database_save_subjects xs st)))
          = Inr (map (read_back (\<lambda>s. s)) xs)"
    by (rule Database_load_rows [OF len]) (simp add: ok)
  then show "map_sum id (map (map_option strip_record))
          (fst (Database_load_subjects (snd (Database_save_subjects xs st))))
         = Inr (map (read_back strip) xs)"
    by (simp add: comp_def read_back_stripped)
next
  assume a: "length xs = 5 \<and> list_all null_or_dict xs"
    and c: "dumps (mirror_json (canonical 0 xs)) \<noteq> []
          \<and> loads (dumps (mirror_json (canonical 0 xs))) = Some (mirror_json (canonical 0 xs))"
  from a have len: "length xs = SLOT_COUNT" and nd: "list_all null_or_dict xs"
    by (simp_all add: SLOT_COUNT_def)
  note ok = save_subjects_snapshot_ok [OF len nd, of dumps lst]
  show "fst (save_subjects_snapshot dumps (JArr xs) SLOT_COUNT lst) = Inr ()" by (simp add: ok)
  have stripped: "\<forall>(k, r) \<in> set (canonical 0 xs). strip_record r = r"
    using canonical_stripped by blast
  have "load_subjects_snapshot loads SLOT_COUNT
          (snd (save_subjects_snapshot dumps (JArr xs) SLOT_COUNT lst))
        = (Inr (map (\<lambda>i. map_of (canonical 0 xs) (string_of_nat i)) [0..<SLOT_COUNT]),
           (snd (save_subjects_snapshot dumps (JArr xs) SLOT_COUNT lst))
             \<lparr>subjects := canonical 0 xs,
              events := events (snd (save_subjects_snapshot dumps (JArr xs) SLOT_COUNT lst))
                          @ [Connect, Commit, Close, Connect, Commit, Close]\<rparr>)"
    by (rule load_subjects_snapshot_mirror [where raw = "dumps (mirror_json (canonical 0 xs))"])
       (simp_all add: ok update_conv' c canonical_distinct stripped)
  then show "fst (load_subjects_snapshot loads SLOT_COUNT
                  (snd (save_subjects_snapshot dumps (JArr xs) SLOT_COUNT lst)))
             = Inr (map (read_back strip) xs)"
    using canonical_read [of xs] len by simp
qed

theorem snapshot_round_trip_witness:
  "length [JObj [(''subject'', JStr '' Maths ''), (''current'', JInt 5)], JNull, JObj [], JNull, JNull] = 5
   \<and> list_all null_or_dict
        [JObj [(''subject'', JStr '' Maths ''), (''current'', JInt 5)], JNull, JObj [], JNull, JNull]
   \<and> json_dumps (mirror_json (canonical 0
        [JObj [(''subject'', JStr '' Maths ''), (''current'', JInt 5)], JNull, JObj [], JNull, JNull])) \<noteq> []
   \<and> json_loads (json_dumps (mirror_json (canonical 0
        [JObj [(''subject'', JStr '' Maths ''), (''current'', JInt 5)], JNull, JObj [], JNull, JNull])))
       = Some (mirror_json (canonical 0
        [JObj [(''subject'', JStr '' Maths ''), (''current'', JInt 5)], JNull, JObj [], JNull, JNull]))
   \<and> fst (load_subjects_snapshot json_loads SLOT_COUNT
           (snd (save_subjects_snapshot json_dumps
                   (JArr [JObj [(''subject'', JStr '' Maths ''), (''current'', JInt 5)], JNull, JObj [], JNull, JNull])
                   SLOT_COUNT empty_lib)))
       = Inr [Some \<lparr>subject = ''Maths'', current = ''5'', target = []\<rparr>, None, None, None, None]"
proof -
  let ?xs = "[JObj [(''subject'', JStr '' Maths ''), (''current'', JInt 5)], JNull, JObj [], JNull, JNull]"
  have h1: "length ?xs = 5 \<and> list_all null_or_dict ?xs" by simp
  have h2: "json_dumps (mirror_json (canonical 0 ?xs)) \<noteq> []
     \<and> json_loads (json_dumps (mirror_json (canonical 0 ?xs))) = Some (mirror_json (canonical 0 ?xs))"
    by code_simp
  have v: "map (read_back strip) ?xs
     = [Some \<lparr>subject = ''Maths'', current = ''5'', target = []\<rparr>, None, None, None, None]"
    by code_simp
  show ?thesis
    using h1 h2 v snapshot_round_trip [of ?xs empty_app json_dumps json_loads empty_lib]
    by simp
qed

text \<open>
  C2. The two strategies agree on which slots are occupied but not on their fields:
  Database.py stores \<open>str(item.get(...))\<close> as it is, database.py strips it, so a field
  with surrounding whitespace reads back differently.
\<close>

theorem strategies_differ_on_padding:
  "fst (Database_load_subjects
         (snd (Database_save_subjects [JObj [(''subject'', JStr '' a '')], JNull, JNull, JNull, JNull]
                 empty_app)))
     = Inr [Some \<lparr>subject = '' a '', current = [], target = []\<rparr>, None, None, None, None]
   \<and> fst (load_subjects_snapshot json_loads SLOT_COUNT
           (snd (save_subjects_snapshot json_dumps
                   (JArr [JObj [(''subject'', JStr '' a '')], JNull, JNull, JNull, JNull])
                   SLOT_COUNT empty_lib)))
       = Inr [Some \<lparr>subject = ''a'', current = [], target = []\<rparr>, None, None, None, None]"
  by code_simp

text \<open>
  C3. A non-null element that is not an object is not always refused: \<open>if not item\<close> comes
  before the type check, so \<open>0\<close>, the empty string, \<open>false\<close> and the empty list are
  skipped like nulls by both write paths. A truthy one is refused by database.py with a
  \<open>TypeError\<close>; in Database.py it ends in an \<open>AttributeError\<close> that the handler does
  not catch.
\<close>

theorem falsy_elements_pass_the_shape_check:
  "normalize_subject_payload (JArr [JInt 0, JStr [], JBool False, JArr [], JNull]) SLOT_COUNT = Inr []
   \<and> fst (save_subjects_snapshot json_dumps (JArr [JInt 0, JStr [], JBool False, JArr [], JNull])
            SLOT_COUNT empty_lib) = Inr ()
   \<and> fst (Database_save_subjects [JInt 0, JStr [], JBool False, JArr [], JNull] empty_app) = Inr ()
   \<and> fst (set_subjects (JArr [JInt 0, JStr [], JBool False, JArr [], JNull]) empty_app)
       = Inr (jsonify (JObj [(''status'', JStr ''ok'')]))
   \<and> normalize_subject_payload (JArr [JInt 7, JNull, JNull, JNull, JNull]) SLOT_COUNT
       = Inl (TypeError ''subject_list[0] must be a dict or null.'')
   \<and> fst (Database_save_subjects [JInt 7, JNull, JNull, JNull, JNull] empty_app) = Inl AttributeError
   \<and> fst (set_subjects (JArr [JInt 7, JNull, JNull, JNull, JNull]) empty_app) = Inl AttributeError"
  by code_simp

text \<open>
  C9. \<open>save_subject\<close> raises a \<open>ValueError\<close> for the empty name and leaves the state
  alone. For every non-empty name and every string value, on a table whose names are
  unique (they are its primary key), it succeeds and upserts: the name now maps to the
  value and every other name keeps its value. \<open>load_subjects\<close> then returns the entries
  ordered by name, the new pair among them.
\<close>

theorem save_subject_upsert:
  "save_subject [] val st = (Inl (ValueError ''name must be a non-empty string.''), st)
   \<and> (name \<noteq> [] \<and> distinct (map fst (subject_entries st)) \<longrightarrow>
        fst (save_subject name (JStr v) st) = Inr ()
        \<and> subject_entries (snd (save_subject name (JStr v) st))
            = AList.update name v (subject_entries st)
        \<and> fst (load_subjects (snd (save_subject name (JStr v) st)))
            = Inr (sort_key fst (AList.update name v (subject_entries st)))
        \<and> sorted (map fst (sort_key fst (AList.update name v (subject_entries st))))
        \<and> map_of (sort_key fst (AList.update name v (subject_entries st)))
            = (map_of (subject_entries st))(name \<mapsto> v))"
proof (intro conjI impI)
  show "save_subject [] val st = (Inl (ValueError ''name must be a non-empty string.''), st)"
    by (simp add: save_subject_def)
next
  assume a: "name \<noteq> [] \<and> distinct (map fst (subject_entries st))"
  then have d: "distinct (map fst (AList.update name v (subject_entries st)))"
    by (simp add: distinct_update)
  show "fst (save_subject name (JStr v) st) = Inr ()"
    and "subject_entries (snd (save_subject name (JStr v) st)) = AList.update name v (subject_entries st)"
    using a by (simp_all add: lib_defs)
  show "fst (load_subjects (snd (save_subject name (JStr v) st)))
          = Inr (sort_key fst (AList.update name v (subject_entries st)))"
    using a dict_of_rows_distinct [OF sort_key_distinct_keys [OF d]]
    by (simp add: load_subjects_def lib_defs)
  show "sorted (map fst (sort_key fst (AList.update name v (subject_entries st))))"
    by (rule sorted_sort_key)
  show "map_of (sort_key fst (AList.update name v (subject_entries st)))
          = (map_of (subject_entries st))(name \<mapsto> v)"
    by (simp add: map_of_sort_key [OF d] update_conv')
qed

theorem save_subject_upsert_witness:
  "''k'' \<noteq> [] \<and> distinct (map fst (subject_entries empty_lib))
   \<and> fst (load_subjects (snd (save_subject ''k'' (JStr ''v'') empty_lib))) = Inr [(''k'', ''v'')]
   \<and> map_of [(''k'', ''v'')] ''k'' = Some ''v''"
proof -
  have h: "''k'' \<noteq> [] \<and> distinct (map fst (subject_entries empty_lib))"
    by (simp add: empty_lib_def)
  show ?thesis
    using h save_subject_upsert [of "JStr ''v''" empty_lib "''k''" "''v''"]
    by (simp add: empty_lib_def)
qed



text \<open>
  C7, as stated, fails in its last part: \<open>load_subjects_snapshot\<close> assigns the global
  \<open>subjects\<close> too. After a save, an entry written under the reserved key by
  \<open>save_subject\<close> and a reload, the in-memory copy is no longer what the save left.
\<close>

theorem load_writes_mirror_counterexample:
  "subjects (snd (save_subject SUBJECTS_KEY (JStr ''[]'')
        (snd (save_subjects_snapshot json_dumps
                (JArr [JObj [(''subject'', JStr ''a'')], JNull, JNull, JNull, JNull])
                SLOT_COUNT empty_lib))))
     = [(''0'', \<lparr>subject = ''a'', current = [], target = []\<rparr>)]
   \<and> subjects (snd (load_subjects_snapshot json_loads SLOT_COUNT
        (snd (save_subject SUBJECTS_KEY (JStr ''[]'')
          (snd (save_subjects_snapshot json_dumps
                  (JArr [JObj [(''subject'', JStr ''a'')], JNull, JNull, JNull, JNull])
                  SLOT_COUNT empty_lib))))))
       = []"
  by code_simp

text \<open>
  C7, amended. After every successful \<open>save_subjects_snapshot\<close> the in-memory copy is
  exactly the canonical mapping that normalisation produced, and the text stored under the
  reserved key is that mapping serialised; a save whose normalisation fails changes
  nothing. \<open>save_subject\<close>, \<open>save_subjects\<close>, \<open>load_subjects\<close> and \<open>init_db\<close> never
  write the copy. \<open>load_subjects_snapshot\<close> writes it as well, with the mapping it
  recovers from the store, which right after a successful save is the same mapping again,
  for every codec that reads back the text it wrote.
\<close>

theorem mirror_after_save:
  "(fst (save_subjects_snapshot dumps payload n st) = Inr () \<longrightarrow>
      normalize_subject_payload payload n
        = Inr (subjects (snd (save_subjects_snapshot dumps payload n st)))
      \<and> map_of (subject_entries (snd (save_subjects_snapshot dumps payload n st))) SUBJECTS_KEY
          = Some (dumps (mirror_json (subjects (snd (save_subjects_snapshot dumps payload n st)))))
      \<and> (dumps (mirror_json (subjects (snd (save_subjects_snapshot dumps payload n st)))) \<noteq> []
           \<and> loads (dumps (mirror_json (subjects (snd (save_subjects_snapshot dumps payload n st)))))
               = Some (mirror_json (subjects (snd (save_subjects_snapshot dumps payload n st)))) \<longrightarrow>
          subjects (snd (load_subjects_snapshot loads k (snd (save_subjects_snapshot dumps payload n st))))
            = subjects (snd (save_subjects_snapshot dumps payload n st))))
   \<and> (normalize_subject_payload payload n = Inl e \<longrightarrow>
        save_subjects_snapshot dumps payload n st = (Inl e, st))
   \<and> subjects (snd (save_subject name val st)) = subjects st
   \<and> subjects (snd (save_subjects data st)) = subjects st
   \<and> subjects (snd (load_subjects st)) = subjects st
   \<and> subjects (init_db st) = subjects st"
proof (intro conjI impI)
  assume ok: "fst (save_subjects_snapshot dumps payload n st) = Inr ()"
  then obtain m where m: "normalize_subject_payload payload n = Inr m"
    by (cases "normalize_subject_payload payload n") (simp_all add: save_subjects_snapshot_cases)
  have st': "snd (save_subjects_snapshot dumps payload n st)
      = st\<lparr>subjects := m,
           subject_entries := AList.update SUBJECTS_KEY (dumps (mirror_json m)) (subject_entries st),
           events := events st @ [Connect, Commit, Close, Connect, Commit, Close]\<rparr>"
    by (simp add: save_subjects_snapshot_cases m)
  show "normalize_subject_payload payload n
        = Inr (subjects (snd (save_subjects_snapshot dumps payload n st)))"
    by (simp add: st' m)
  show "map_of (subject_entries (snd (save_subjects_snapshot dumps payload n st))) SUBJECTS_KEY
          = Some (dumps (mirror_json (subjects (snd (save_subjects_snapshot dumps payload n st)))))"
    by (simp add: st' update_conv')
  assume "dumps (mirror_json (subjects (snd (save_subjects_snapshot dumps payload n st)))) \<noteq> []
           \<and> loads (dumps (mirror_json (subjects (snd (save_subjects_snapshot dumps payload n st)))))
               = Some (mirror_json (subjects (snd (save_subjects_snapshot dumps payload n st))))"
  then have c: "dumps (mirror_json m) \<noteq> []" "loads (dumps (mirror_json m)) = Some (mirror_json m)"
    by (simp_all add: st')
  have inv: "distinct (map fst m)" "\<forall>(k, r) \<in> set m. strip_record r = r"
    using normalize_payload_invariant [OF m] by simp_all
  have "load_subjects_snapshot loads k (snd (save_subjects_snapshot dumps payload n st))
      = (Inr (map (\<lambda>i. map_of m (string_of_nat i)) [0..<k]),
         (snd (save_subjects_snapshot dumps payload n st))
           \<lparr>subjects := m,
            events := events (snd (save_subjects_snapshot dumps payload n st))
                        @ [Connect, Commit, Close, Connect, Commit, Close]\<rparr>)"
    by (rule load_subjects_snapshot_mirror [where raw = "dumps (mirror_json m)"])
       (simp_all add: st' update_conv' c inv)
  then show "subjects (snd (load_subjects_snapshot loads k (snd (save_subjects_snapshot dumps payload n st))))
            = subjects (snd (save_subjects_snapshot dumps payload n st))"
    by (simp add: st')
next
  assume "normalize_subject_payload payload n = Inl e"
  then show "save_subjects_snapshot dumps payload n st = (Inl e, st)"
    by (simp add: save_subjects_snapshot_cases)
next
  show "subjects (snd (save_subject name val st)) = subjects st"
    by (simp add: lib_defs split: sum.split)
  show "subjects (snd (save_subjects data st)) = subjects st"
    by (cases data) (simp_all add: save_subjects_def lib_defs split: sum.split)
  show "subjects (snd (load_subjects st)) = subjects st"
    by (simp add: load_subjects_def lib_defs)
  show "subjects (init_db st) = subjects st"
    by (simp add: lib_defs)
qed

theorem mirror_after_save_witness:
  "fst (save_subjects_snapshot json_dumps
          (JArr [JObj [(''subject'', JStr ''a'')], JNull, JNull, JNull, JNull]) SLOT_COUNT empty_lib) = Inr ()
   \<and> subjects (snd (save_subjects_snapshot json_dumps
          (JArr [JObj [(''subject'', JStr ''a'')], JNull, JNull, JNull, JNull]) SLOT_COUNT empty_lib))
       = [(''0'', \<lparr>subject = ''a'', current = [], target = []\<rparr>)]
   \<and> json_dumps (mirror_json [(''0'', \<lparr>subject = ''a'', current = [], target = []\<rparr>)]) \<noteq> []
   \<and> json_loads (json_dumps (mirror_json [(''0'', \<lparr>subject = ''a'', current = [], target = []\<rparr>)]))
       = Some (mirror_json [(''0'', \<lparr>subject = ''a'', current = [], target = []\<rparr>)])
   \<and> subjects (snd (load_subjects_snapshot json_loads SLOT_COUNT
        (snd (save_subjects_snapshot json_dumps
          (JArr [JObj [(''subject'', JStr ''a'')], JNull, JNull, JNull, JNull]) SLOT_COUNT empty_lib))))
       = [(''0'', \<lparr>subject = ''a'', current = [], target = []\<rparr>)]
   \<and> normalize_subject_payload (JArr []) SLOT_COUNT = Inl (ValueError ''Expected 5 slots, got 0.'')
   \<and> save_subjects_snapshot json_dumps (JArr []) SLOT_COUNT empty_lib
       = (Inl (ValueError ''Expected 5 slots, got 0.''), empty_lib)"
proof -
  let ?p = "JArr [JObj [(''subject'', JStr ''a'')], JNull, JNull, JNull, JNull]"
  let ?m = "[(''0'', \<lparr>subject = ''a'', current = [], target = []\<rparr>)]"
  let ?s = "snd (save_subjects_snapshot json_dumps ?p SLOT_COUNT empty_lib)"
  have h1: "fst (save_subjects_snapshot json_dumps ?p SLOT_COUNT empty_lib) = Inr ()"
    by code_simp
  have h2: "subjects ?s = ?m"
    by code_simp
  have h3: "json_dumps (mirror_json ?m) \<noteq> [] \<and> json_loads (json_dumps (mirror_json ?m)) = Some (mirror_json ?m)"
    by code_simp
  have h4: "normalize_subject_payload (JArr []) SLOT_COUNT = Inl (ValueError ''Expected 5 slots, got 0.'')"
    by code_simp
  have h3': "json_dumps (mirror_json (subjects ?s)) \<noteq> []
       \<and> json_loads (json_dumps (mirror_json (subjects ?s))) = Some (mirror_json (subjects ?s))"
    unfolding h2 by (rule h3)
  have "subjects (snd (load_subjects_snapshot json_loads SLOT_COUNT ?s)) = subjects ?s"
    using h1 h3' mirror_after_save [of json_dumps ?p SLOT_COUNT empty_lib json_loads SLOT_COUNT]
    by blast
  then have r: "subjects (snd (load_subjects_snapshot json_loads SLOT_COUNT ?s)) = ?m"
    unfolding h2 .
  have f: "save_subjects_snapshot json_dumps (JArr []) SLOT_COUNT empty_lib
       = (Inl (ValueError ''Expected 5 slots, got 0.''), empty_lib)"
    using h4 mirror_after_save [of json_dumps "JArr []" SLOT_COUNT empty_lib json_loads SLOT_COUNT
        "ValueError ''Expected 5 slots, got 0.''"]
    by blast
  show ?thesis
    using h1 h2 h3 r h4 f by blast
qed

text \<open>
  C6. The operations of database.py connect, commit or roll back, and close, on every path.
  Those of Database.py commit or roll back but never close: the \<open>with\<close> block of a bare
  connection ends the transaction only. In both modules a failed multi-statement write
  leaves the table as it was.
\<close>

theorem Database_connections_left_open:
  "events (snd (load_goal empty_app)) = [Connect, Commit, Connect, Commit]
   \<and> events (snd (save_goal (JStr ''pass'') empty_app)) = [Connect, Commit, Connect, Commit]
   \<and> events (snd (Database_load_subjects empty_app)) = [Connect, Commit, Connect, Commit]
   \<and> events (snd (Database_save_subjects [JInt 7, JNull, JNull, JNull, JNull] empty_app))
       = [Connect, Commit, Connect, Rollback]
   \<and> events (snd (load_subjects empty_lib)) = [Connect, Commit, Close, Connect, Commit, Close]
   \<and> events (snd (save_subject ''k'' JNull empty_lib))
       = [Connect, Commit, Close, Connect, Rollback, Close]
   \<and> fst (Database_save_subjects [JObj [(''subject'', JStr ''b'')], JInt 7, JNull, JNull, JNull]
            (snd (Database_save_subjects [JObj [(''subject'', JStr ''a'')], JNull, JNull, JNull, JNull]
                    empty_app)))
       = Inl AttributeError
   \<and> subject_slots (db (snd (Database_save_subjects
          [JObj [(''subject'', JStr ''b'')], JInt 7, JNull, JNull, JNull]
          (snd (Database_save_subjects [JObj [(''subject'', JStr ''a'')], JNull, JNull, JNull, JNull]
                  empty_app)))))
       = [(0, \<lparr>subject = ''a'', current = [], target = []\<rparr>)]
   \<and> save_subjects (JObj [(''a'', JStr ''1''), (''b'', JNull)]) empty_lib
       = (Inl IntegrityError, empty_lib\<lparr>events := [Connect, Commit, Close, Connect, Rollback, Close]\<rparr>)"
  by code_simp

end
